theory Spec2Isabelle
  imports Complex_Main
begin

section \<open>Errors and dates\<close>

text \<open>
  The exceptions the Python code can raise on the paths modelled here.  No function of
  the package raises \<open>InsufficientDataError\<close>: the constructor exists only so that
  statements can name the error the documentation speaks of.
\<close>

datatype error = TypeError | ValueError | KeyError | IndexError | InsufficientDataError

text \<open>
  A \<^verbatim>\<open>pd.Timestamp\<close>, reduced to the calendar fields the package reads.
  \<^verbatim>\<open>Timestamp.quarter\<close> is \<^verbatim>\<open>(month - 1) // 3 + 1\<close>.
\<close>

record timestamp =
  year :: int
  month :: nat
  day :: nat

definition quarter :: "timestamp \<Rightarrow> nat" where
  "quarter d = (month d - 1) div 3 + 1"

definition valid_date :: "timestamp \<Rightarrow> bool" where
  "valid_date d = (1 \<le> month d \<and> month d \<le> 12 \<and> 1 \<le> day d \<and> day d \<le> 31)"

definition date_le :: "timestamp \<Rightarrow> timestamp \<Rightarrow> bool" where
  "date_le a b =
     (year a < year b \<or>
      (year a = year b \<and> (month a < month b \<or> (month a = month b \<and> day a \<le> day b))))"

section \<open>portfolio.py\<close>

text \<open>
  Python floats are modelled as real numbers with exact arithmetic.  \<^verbatim>\<open>round(x, n)\<close>
  rounds to \<open>n\<close> decimals, ties going to the even neighbour.
\<close>

definition round_half_even :: "real \<Rightarrow> int" where
  "round_half_even y =
     (let f = \<lfloor>y\<rfloor>; d = y - of_int f
      in if d < 1 / 2 then f else if 1 / 2 < d then f + 1
         else if even f then f else f + 1)"

definition py_round :: "real \<Rightarrow> nat \<Rightarrow> real" where
  "py_round x n = of_int (round_half_even (x * 10 ^ n)) / 10 ^ n"

text \<open>
  The argument \<^verbatim>\<open>target_weights\<close> as Python passes it: any object, and when it is a
  dict, keys of any type.  A dict is an association list with distinct keys, in
  insertion order.
\<close>

datatype pykey = StrKey string | OtherKey

datatype pyobj = Dict "(pykey \<times> real) list" | NotDict

fun is_str :: "pykey \<Rightarrow> bool" where
  "is_str (StrKey s) = True"
| "is_str OtherKey = False"

fun str_of :: "pykey \<Rightarrow> string" where
  "str_of (StrKey s) = s"
| "str_of OtherKey = []"

record portfolio =
  target_weights :: "(string \<times> real) list"
  rebalance_frequency :: "string option"
  last_rebalance_date :: "timestamp option"

definition sum_values :: "('k \<times> real) list \<Rightarrow> real" where
  "sum_values kvs = sum_list (map snd kvs)"

fun Portfolio_init :: "pyobj \<Rightarrow> string option \<Rightarrow> error + portfolio" where
  "Portfolio_init NotDict freq = Inl TypeError"
| "Portfolio_init (Dict kvs) freq =
     (if \<not> list_all is_str (map fst kvs) then Inl TypeError
      else if py_round (sum_values kvs) 5 \<noteq> 1 then Inl ValueError
      else Inr \<lparr>target_weights = map (\<lambda>(k, v). (str_of k, v)) kvs,
                rebalance_frequency = freq,
                last_rebalance_date = None\<rparr>)"

text \<open>
  \<^verbatim>\<open>should_rebalance\<close> returns its answer and the portfolio with the updated
  \<^verbatim>\<open>_last_rebalance_date\<close>.
\<close>

definition should_rebalance :: "portfolio \<Rightarrow> timestamp \<Rightarrow> bool \<times> portfolio" where
  "should_rebalance p current_date =
     (case rebalance_frequency p of
        None \<Rightarrow> (False, p)
      | Some freq \<Rightarrow>
          (case last_rebalance_date p of
             None \<Rightarrow> (False, p\<lparr>last_rebalance_date := Some current_date\<rparr>)
           | Some last_date \<Rightarrow>
               if freq = ''monthly'' then
                 (if month current_date \<noteq> month last_date
                  then (True, p\<lparr>last_rebalance_date := Some current_date\<rparr>)
                  else (False, p))
               else if freq = ''quarterly'' then
                 (if quarter current_date \<noteq> quarter last_date
                  then (True, p\<lparr>last_rebalance_date := Some current_date\<rparr>)
                  else (False, p))
               else if freq = ''annually'' then
                 (if year current_date \<noteq> year last_date
                  then (True, p\<lparr>last_rebalance_date := Some current_date\<rparr>)
                  else (False, p))
               else (False, p)))"

text \<open>A sequence of calls, one per date, threading the portfolio through them.\<close>

fun rebalance_calls :: "portfolio \<Rightarrow> timestamp list \<Rightarrow> bool list \<times> portfolio" where
  "rebalance_calls p [] = ([], p)"
| "rebalance_calls p (d # ds) =
     (let (b, p') = should_rebalance p d;
          (bs, p'') = rebalance_calls p' ds
      in (b # bs, p''))"

section \<open>engine.py\<close>

text \<open>
  A price table: the column labels and, per row, the date and the prices.  A row is read
  by label; reading a label that is not a column raises \<open>KeyError\<close>.

  Prices and amounts are real numbers and the arithmetic of the model is exact, where the
  program rounds the result of every operation to a double.  What is proved about the
  engine below is the shape of the value series and that the returned state is the state
  after the last row: properties that do not depend on the rounding.  No equality between
  two amounts that the program computes in different ways is stated over this model; in
  doubles, \<open>(1.0 / 49.0) * 49.0\<close> is \<open>0.9999999999999999\<close>, not \<open>1.0\<close>.
\<close>

record dataframe =
  columns :: "string list"
  rows :: "(timestamp \<times> (string \<Rightarrow> real)) list"

definition getitem :: "string list \<Rightarrow> (string \<Rightarrow> real) \<Rightarrow> string \<Rightarrow> error + real" where
  "getitem cols prices ticker = (if ticker \<in> set cols then Inr (prices ticker) else Inl KeyError)"

text \<open>
  The local variables of \<^verbatim>\<open>run_backtest\<close>, and the portfolio object whose
  \<^verbatim>\<open>_last_rebalance_date\<close> the loop mutates through \<^verbatim>\<open>should_rebalance\<close>.
  The dict \<^verbatim>\<open>holdings\<close> has the column labels as its keys, each once; it is a function
  read at these keys.
\<close>

record sim =
  holdings :: "string \<Rightarrow> real"
  cash :: real
  current_monthly_topup :: real
  portfolio_history :: "(timestamp \<times> real) list"
  last_month :: "nat option"
  last_year :: "int option"
  policy :: portfolio

definition holdings_keys :: "string list \<Rightarrow> string list" where
  "holdings_keys cols = remdups cols"

definition initial_sim :: "portfolio \<Rightarrow> real \<Rightarrow> real \<Rightarrow> sim" where
  "initial_sim pf initial_investment monthly_topup =
     \<lparr>holdings = (\<lambda>ticker. 0), cash = initial_investment,
      current_monthly_topup = monthly_topup, portfolio_history = [],
      last_month = None, last_year = None, policy = pf\<rparr>"

text \<open>\<^verbatim>\<open>sum(holdings[ticker] * prices[ticker] for ticker in holdings)\<close>\<close>

definition market_value :: "string list \<Rightarrow> (string \<Rightarrow> real) \<Rightarrow> (string \<Rightarrow> real) \<Rightarrow> real" where
  "market_value cols h prices = (\<Sum>ticker\<leftarrow>holdings_keys cols. h ticker * prices ticker)"

definition total_value :: "string list \<Rightarrow> sim \<Rightarrow> (string \<Rightarrow> real) \<Rightarrow> real" where
  "total_value cols s prices = market_value cols (holdings s) prices + cash s"

text \<open>The yearly increase of the top-up and the monthly cash injection.\<close>

definition handle_date_changes :: "real \<Rightarrow> sim \<Rightarrow> timestamp \<Rightarrow> sim" where
  "handle_date_changes annual_increase s current_date =
     (let topup = (case last_year s of
                     None \<Rightarrow> current_monthly_topup s
                   | Some y \<Rightarrow>
                       if y < year current_date
                       then current_monthly_topup s * (1 + annual_increase / 100)
                       else current_monthly_topup s);
          cash' = (case last_month s of
                     None \<Rightarrow> cash s
                   | Some m \<Rightarrow> if month current_date \<noteq> m then cash s + topup else cash s)
      in s\<lparr>current_monthly_topup := topup, cash := cash',
           last_month := Some (month current_date), last_year := Some (year current_date)\<rparr>)"

text \<open>
  The loop over \<^verbatim>\<open>portfolio.target_weights.items()\<close>: a ticker with a positive price
  gets its share of the total_val value, any other ticker keeps its holding.
\<close>

fun set_holdings ::
  "string list \<Rightarrow> (string \<Rightarrow> real) \<Rightarrow> real \<Rightarrow> (string \<times> real) list \<Rightarrow>
     (string \<Rightarrow> real) \<Rightarrow> error + (string \<Rightarrow> real)" where
  "set_holdings cols prices total_val [] h = Inr h"
| "set_holdings cols prices total_val ((ticker, target_weight) # tw) h =
     (case getitem cols prices ticker of
        Inl e \<Rightarrow> Inl e
      | Inr price \<Rightarrow>
          if 0 < price
          then set_holdings cols prices total_val tw (h(ticker := total_val * target_weight / price))
          else set_holdings cols prices total_val tw h)"

text \<open>The block under \<^verbatim>\<open>if is_first_day or is_rebalance_day\<close>.\<close>

definition deploy_cash :: "string list \<Rightarrow> sim \<Rightarrow> (string \<Rightarrow> real) \<Rightarrow> error + sim" where
  "deploy_cash cols s prices =
     (let total_val = market_value cols (holdings s) prices + cash s
      in case set_holdings cols prices total_val (target_weights (policy s)) (holdings s) of
           Inl e \<Rightarrow> Inl e
         | Inr h \<Rightarrow> Inr (s\<lparr>holdings := h, cash := 0\<rparr>))"

definition record_value :: "string list \<Rightarrow> sim \<Rightarrow> timestamp \<Rightarrow> (string \<Rightarrow> real) \<Rightarrow> sim" where
  "record_value cols s current_date prices =
     s\<lparr>portfolio_history := portfolio_history s @ [(current_date, total_value cols s prices)]\<rparr>"

text \<open>One iteration of the main simulation loop.\<close>

definition simulate_day ::
  "string list \<Rightarrow> real \<Rightarrow> sim \<Rightarrow> timestamp \<times> (string \<Rightarrow> real) \<Rightarrow> error + sim" where
  "simulate_day cols annual_increase s row =
     (let current_date = fst row; prices = snd row;
          s1 = handle_date_changes annual_increase s current_date;
          is_first_day = (portfolio_history s1 = []);
          (is_rebalance_day, pf) = should_rebalance (policy s1) current_date;
          s2 = s1\<lparr>policy := pf\<rparr>
      in if is_first_day \<or> is_rebalance_day then
           (case deploy_cash cols s2 prices of
              Inl e \<Rightarrow> Inl e
            | Inr s3 \<Rightarrow> Inr (record_value cols s3 current_date prices))
         else Inr (record_value cols s2 current_date prices))"

fun simulate ::
  "string list \<Rightarrow> real \<Rightarrow> sim \<Rightarrow> (timestamp \<times> (string \<Rightarrow> real)) list \<Rightarrow> error + sim" where
  "simulate cols annual_increase s [] = Inr s"
| "simulate cols annual_increase s (row # rest) =
     (case simulate_day cols annual_increase s row of
        Inl e \<Rightarrow> Inl e
      | Inr s' \<Rightarrow> simulate cols annual_increase s' rest)"

text \<open>
  \<^verbatim>\<open>run_backtest\<close> returns the value series, the holdings dict and the cash.  With no
  row the history is empty, the frame built from it has no \<^verbatim>\<open>Date\<close> column and
  \<^verbatim>\<open>set_index\<close> raises \<open>KeyError\<close>.
\<close>

definition run_backtest ::
  "dataframe \<Rightarrow> portfolio \<Rightarrow> real \<Rightarrow> real \<Rightarrow> real \<Rightarrow>
     error + ((timestamp \<times> real) list \<times> (string \<times> real) list \<times> real)" where
  "run_backtest data pf initial_investment monthly_topup annual_increase =
     (case simulate (columns data) annual_increase
             (initial_sim pf initial_investment monthly_topup) (rows data) of
        Inl e \<Rightarrow> Inl e
      | Inr s \<Rightarrow>
          if portfolio_history s = [] then Inl KeyError
          else Inr (portfolio_history s,
                    map (\<lambda>ticker. (ticker, holdings s ticker)) (holdings_keys (columns data)),
                    cash s))"

section \<open>Floating-point values with the special values\<close>

text \<open>
  The statistics of a series that is too short, a division by a zero price and the
  logarithm of a non-positive number yield the special values of floating-point
  arithmetic.  A value is not-a-number, an infinity or a finite number; finite numbers are
  real numbers with exact arithmetic (no rounding, no overflow, no signed zero).  The
  operations follow IEEE 754 on the special values.
\<close>

datatype fl = NaN | NegInf | PosInf | Fin real

fun isnan :: "fl \<Rightarrow> bool" where
  "isnan NaN = True"
| "isnan v = False"

definition inf_times :: "real \<Rightarrow> fl" where
  "inf_times x = (if x = 0 then NaN else if 0 < x then PosInf else NegInf)"

fun fl_neg :: "fl \<Rightarrow> fl" where
  "fl_neg NaN = NaN"
| "fl_neg NegInf = PosInf"
| "fl_neg PosInf = NegInf"
| "fl_neg (Fin x) = Fin (- x)"

fun fl_add :: "fl \<Rightarrow> fl \<Rightarrow> fl" where
  "fl_add (Fin x) (Fin y) = Fin (x + y)"
| "fl_add NaN b = NaN"
| "fl_add a NaN = NaN"
| "fl_add PosInf NegInf = NaN"
| "fl_add NegInf PosInf = NaN"
| "fl_add PosInf b = PosInf"
| "fl_add a PosInf = PosInf"
| "fl_add NegInf b = NegInf"
| "fl_add a NegInf = NegInf"

definition fl_sub :: "fl \<Rightarrow> fl \<Rightarrow> fl" where
  "fl_sub a b = fl_add a (fl_neg b)"

fun fl_mul :: "fl \<Rightarrow> fl \<Rightarrow> fl" where
  "fl_mul (Fin x) (Fin y) = Fin (x * y)"
| "fl_mul NaN b = NaN"
| "fl_mul a NaN = NaN"
| "fl_mul PosInf (Fin y) = inf_times y"
| "fl_mul NegInf (Fin y) = inf_times (- y)"
| "fl_mul (Fin x) PosInf = inf_times x"
| "fl_mul (Fin x) NegInf = inf_times (- x)"
| "fl_mul PosInf PosInf = PosInf"
| "fl_mul NegInf NegInf = PosInf"
| "fl_mul PosInf NegInf = NegInf"
| "fl_mul NegInf PosInf = NegInf"

fun fl_div :: "fl \<Rightarrow> fl \<Rightarrow> fl" where
  "fl_div (Fin x) (Fin y) = (if y = 0 then inf_times x else Fin (x / y))"
| "fl_div NaN b = NaN"
| "fl_div a NaN = NaN"
| "fl_div (Fin x) b = Fin 0"
| "fl_div PosInf (Fin y) = (if 0 \<le> y then PosInf else NegInf)"
| "fl_div NegInf (Fin y) = (if 0 \<le> y then NegInf else PosInf)"
| "fl_div a b = NaN"

fun fl_sqrt :: "fl \<Rightarrow> fl" where
  "fl_sqrt (Fin x) = (if x < 0 then NaN else Fin (sqrt x))"
| "fl_sqrt PosInf = PosInf"
| "fl_sqrt v = NaN"

fun fl_log :: "fl \<Rightarrow> fl" where
  "fl_log (Fin x) = (if x < 0 then NaN else if x = 0 then NegInf else Fin (ln x))"
| "fl_log PosInf = PosInf"
| "fl_log v = NaN"

text \<open>The order of the values that are numbers, and sorting by insertion.\<close>

fun fl_le :: "fl \<Rightarrow> fl \<Rightarrow> bool" where
  "fl_le (Fin x) (Fin y) = (x \<le> y)"
| "fl_le NegInf b = True"
| "fl_le a PosInf = True"
| "fl_le a b = False"

fun fl_insort :: "fl \<Rightarrow> fl list \<Rightarrow> fl list" where
  "fl_insort v [] = [v]"
| "fl_insort v (x # xs) = (if fl_le v x then v # x # xs else x # fl_insort v xs)"

definition fl_sort :: "fl list \<Rightarrow> fl list" where
  "fl_sort vs = foldr fl_insort vs []"

section \<open>forecasting.py\<close>

text \<open>
  The sample mean and the sample standard deviation (one degree of freedom removed) of a
  series of finite numbers, as pandas computes them: the mean of no value is 0/0, the
  deviation of fewer than two values is not-a-number.
\<close>

definition mean :: "real list \<Rightarrow> fl" where
  "mean xs = fl_div (Fin (sum_list xs)) (Fin (real (length xs)))"

definition std :: "real list \<Rightarrow> fl" where
  "std xs =
     (if length xs < 2 then NaN
      else let m = sum_list xs / real (length xs)
           in fl_sqrt (fl_div (Fin (\<Sum>x\<leftarrow>xs. (x - m)\<^sup>2)) (Fin (real (length xs) - 1))))"

text \<open>
  \<^verbatim>\<open>np.random.normal(mu, sigma, n)\<close> scales and shifts \<open>n\<close> standard normal draws.  The
  draws are a parameter: \<open>z j\<close> is the \<open>j\<close>-th draw.
\<close>

definition normal :: "(nat \<Rightarrow> real) \<Rightarrow> fl \<Rightarrow> fl \<Rightarrow> nat \<Rightarrow> fl list" where
  "normal z mu sigma n = map (\<lambda>j. fl_add mu (fl_mul sigma (Fin (z j)))) [0..<n]"

text \<open>The inner loop: the price after each day of one path.\<close>

fun price_path :: "fl \<Rightarrow> fl list \<Rightarrow> fl list" where
  "price_path next_price [] = []"
| "price_path next_price (shock # shocks) =
     (let next_price' = fl_mul next_price (fl_add (Fin 1) shock)
      in next_price' # price_path next_price' shocks)"

text \<open>
  The quantile of one row across the paths, by linear interpolation between the two
  nearest ranks of the sorted values that are numbers; not-a-number when there is none.
\<close>

definition quantile :: "real \<Rightarrow> fl list \<Rightarrow> fl" where
  "quantile q row =
     (let vs = fl_sort (filter (\<lambda>v. \<not> isnan v) row); n = length vs
      in if n = 0 then NaN
         else let pos = q * real (n - 1);
                  lo = nat \<lfloor>pos\<rfloor>;
                  hi = min (lo + 1) (n - 1);
                  frac = pos - real lo
              in fl_add (vs ! lo) (fl_mul (fl_sub (vs ! hi) (vs ! lo)) (Fin frac)))"

record forecast_row =
  median :: fl
  upper_bound_75 :: fl
  lower_bound_25 :: fl
  upper_bound_95 :: fl
  lower_bound_05 :: fl

definition quantiles :: "fl list \<Rightarrow> forecast_row" where
  "quantiles row =
     \<lparr>median = quantile (5 / 10) row,
      upper_bound_75 = quantile (75 / 100) row,
      lower_bound_25 = quantile (25 / 100) row,
      upper_bound_95 = quantile (95 / 100) row,
      lower_bound_05 = quantile (5 / 100) row\<rparr>"

text \<open>
  \<^verbatim>\<open>run_monte_carlo_simulation\<close>.  The historical returns are a series of finite numbers
  indexed by dates; \<open>z i j\<close> is the \<open>j\<close>-th standard normal draw of path \<open>i\<close>.  A future
  date is the pair of the last historical date and the number of calendar days added to
  it.  \<^verbatim>\<open>np.zeros\<close> raises \<open>ValueError\<close> on a negative dimension; reading the last index
  of an empty series raises \<open>IndexError\<close>, after the paths have been computed.
\<close>

definition run_monte_carlo_simulation ::
  "(nat \<Rightarrow> nat \<Rightarrow> real) \<Rightarrow> (timestamp \<times> real) list \<Rightarrow> int \<Rightarrow> real \<Rightarrow> int \<Rightarrow>
     error + ((timestamp \<times> nat) \<times> forecast_row) list" where
  "run_monte_carlo_simulation z historical_returns projection_years initial_value num_simulations =
     (let mu = mean (map snd historical_returns);
          sigma = std (map snd historical_returns);
          num_days = projection_years * 252
      in if num_days < 0 \<or> num_simulations < 0 then Inl ValueError
         else
           let simulation_results =
                 map (\<lambda>i. price_path (Fin initial_value) (normal (z i) mu sigma (nat num_days)))
                   [0..<nat num_simulations]
           in if historical_returns = [] then Inl IndexError
              else
                let last_date = fst (last historical_returns);
                    future_dates = map (\<lambda>x. (last_date, x)) [1..<nat num_days + 1]
                in Inr (map (\<lambda>j. (future_dates ! j,
                                    quantiles (map (\<lambda>path. path ! j) simulation_results)))
                          [0..<nat num_days]))"

text \<open>The forecast row whose five quantiles are the same value.\<close>

definition flat_row :: "fl \<Rightarrow> forecast_row" where
  "flat_row v = \<lparr>median = v, upper_bound_75 = v, lower_bound_25 = v,
                 upper_bound_95 = v, lower_bound_05 = v\<rparr>"

section \<open>risk.py\<close>

text \<open>
  The price table of the risk report holds floating-point cells, which may be missing
  (not-a-number).  \<^verbatim>\<open>price_data / price_data.shift(1)\<close> divides every row by the row
  before it, the first row by a row of missing values; \<^verbatim>\<open>dropna\<close> keeps the rows without
  a missing value.
\<close>

record priceframe =
  pcolumns :: "string list"
  prows :: "(timestamp \<times> (string \<Rightarrow> fl)) list"

definition shift1 :: "(timestamp \<times> (string \<Rightarrow> fl)) list \<Rightarrow> (string \<Rightarrow> fl) list" where
  "shift1 rs = (\<lambda>c. NaN) # map snd (butlast rs)"

definition log_ratio_rows :: "priceframe \<Rightarrow> (timestamp \<times> (string \<Rightarrow> fl)) list" where
  "log_ratio_rows pd =
     map (\<lambda>((d, r), prev). (d, \<lambda>c. fl_log (fl_div (r c) (prev c))))
       (zip (prows pd) (shift1 (prows pd)))"

definition dropna :: "string list \<Rightarrow> (timestamp \<times> (string \<Rightarrow> fl)) list \<Rightarrow>
    (timestamp \<times> (string \<Rightarrow> fl)) list" where
  "dropna cols rs = filter (\<lambda>(d, r). list_all (\<lambda>c. \<not> isnan (r c)) cols) rs"

definition log_returns :: "priceframe \<Rightarrow> (timestamp \<times> (string \<Rightarrow> fl)) list" where
  "log_returns pd = dropna (pcolumns pd) (log_ratio_rows pd)"

text \<open>\<^verbatim>\<open>[weights[ticker] for ticker in price_data.columns]\<close>, raising on a missing key.\<close>

fun ordered_weights :: "(string \<times> real) list \<Rightarrow> string list \<Rightarrow> error + real list" where
  "ordered_weights weights [] = Inr []"
| "ordered_weights weights (ticker # cols) =
     (case map_of weights ticker of
        None \<Rightarrow> Inl KeyError
      | Some w \<Rightarrow>
          (case ordered_weights weights cols of
             Inl e \<Rightarrow> Inl e
           | Inr ws \<Rightarrow> Inr (w # ws)))"

text \<open>
  \<^verbatim>\<open>generate_risk_report\<close>.  The covariance, the eigenvalues and the figure are computed
  by numpy, pandas and seaborn from the log returns and the ordered weights; that
  computation is the parameter \<open>report\<close>.  The result \<open>None\<close> is the pair
  \<^verbatim>\<open>(None, None)\<close>.
\<close>

definition generate_risk_report ::
  "((timestamp \<times> (string \<Rightarrow> fl)) list \<Rightarrow> real list \<Rightarrow> 'r) \<Rightarrow> priceframe \<Rightarrow>
     (string \<times> real) list \<Rightarrow> error + 'r option" where
  "generate_risk_report report price_data weights =
     (if length (prows price_data) < 2 \<or> length (pcolumns price_data) < 1 then Inr None
      else
        case ordered_weights weights (pcolumns price_data) of
          Inl e \<Rightarrow> Inl e
        | Inr ws \<Rightarrow>
            if length (log_returns price_data) < 2 then Inr None
            else Inr (Some (report (log_returns price_data) ws)))"

section \<open>The calendar periods of the specification\<close>

text \<open>
  The specification speaks of the calendar period of a date: a particular month, quarter
  or year on the calendar.  Periods are numbered consecutively along the calendar, so that
  January 2023 and January 2024 are different periods, twelve apart.  These definitions
  follow the wording of the specification; the code is \<^const>\<open>should_rebalance\<close> above.
\<close>

definition named_frequency :: "string \<Rightarrow> bool" where
  "named_frequency freq = (freq = ''monthly'' \<or> freq = ''quarterly'' \<or> freq = ''annually'')"

definition calendar_period :: "string \<Rightarrow> timestamp \<Rightarrow> int" where
  "calendar_period freq d =
     (if freq = ''monthly'' then 12 * year d + (int (month d) - 1)
      else if freq = ''quarterly'' then 4 * year d + (int (quarter d) - 1)
      else year d)"

definition periods_per_year :: "string \<Rightarrow> int" where
  "periods_per_year freq =
     (if freq = ''monthly'' then 12 else if freq = ''quarterly'' then 4 else 1)"

text \<open>
  Two consecutive calls are less than a year of periods apart: fewer than twelve calendar
  months for a monthly policy, fewer than four calendar quarters for a quarterly one.
  Daily price data satisfies this.  An annual policy needs no such bound.
\<close>

definition within_a_year :: "string \<Rightarrow> timestamp \<Rightarrow> timestamp \<Rightarrow> bool" where
  "within_a_year freq d d' =
     (freq = ''annually'' \<or>
      calendar_period freq d' - calendar_period freq d < periods_per_year freq)"

definition call_sequence_ok :: "string \<Rightarrow> timestamp list \<Rightarrow> bool" where
  "call_sequence_ok freq ds =
     (list_all valid_date ds \<and>
      successively (\<lambda>a b. date_le a b \<and> within_a_year freq a b) ds)"

section \<open>Example inputs\<close>

text \<open>
  Two assets held 60/40 with monthly rebalancing, over two days in consecutive months.
\<close>

definition jan_prices :: "string \<Rightarrow> real" where
  "jan_prices = (\<lambda>t. 0)(''AAPL'' := 10, ''GOOG'' := 20)"

definition feb_prices :: "string \<Rightarrow> real" where
  "feb_prices = (\<lambda>t. 0)(''AAPL'' := 12, ''GOOG'' := 18)"

definition two_assets :: dataframe where
  "two_assets =
     \<lparr>columns = [''AAPL'', ''GOOG''],
      rows = [(\<lparr>year = 2024, month = 1, day = 15\<rparr>, jan_prices),
              (\<lparr>year = 2024, month = 2, day = 3\<rparr>, feb_prices)]\<rparr>"

definition sixty_forty :: portfolio where
  "sixty_forty =
     \<lparr>target_weights = [(''AAPL'', 6 / 10), (''GOOG'', 4 / 10)],
      rebalance_frequency = Some ''monthly'', last_rebalance_date = None\<rparr>"

text \<open>
  Draws that alternate between 1 and -1, a history of three returns that are all zero and
  ends on 31 December 2024, and two price tables of one asset: one with a single row, one
  with four rows of which the second is missing, so that one return observation remains.
\<close>

definition sample_noise :: "nat \<Rightarrow> nat \<Rightarrow> real" where
  "sample_noise i j = (if even (i + j) then 1 else - 1)"

definition dec31 :: timestamp where
  "dec31 = \<lparr>year = 2024, month = 12, day = 31\<rparr>"

definition zero_history :: "(timestamp \<times> real) list" where
  "zero_history =
     [(\<lparr>year = 2024, month = 12, day = 27\<rparr>, 0), (\<lparr>year = 2024, month = 12, day = 30\<rparr>, 0),
      (dec31, 0)]"

definition one_row :: priceframe where
  "one_row =
     \<lparr>pcolumns = [''AAPL''],
      prows = [(\<lparr>year = 2024, month = 1, day = 15\<rparr>, \<lambda>c. Fin 10)]\<rparr>"

definition gap_rows :: priceframe where
  "gap_rows =
     \<lparr>pcolumns = [''AAPL''],
      prows = [(\<lparr>year = 2024, month = 1, day = 15\<rparr>, \<lambda>c. Fin 10),
               (\<lparr>year = 2024, month = 1, day = 16\<rparr>, \<lambda>c. NaN),
               (\<lparr>year = 2024, month = 1, day = 17\<rparr>, \<lambda>c. Fin 12),
               (\<lparr>year = 2024, month = 1, day = 18\<rparr>, \<lambda>c. Fin 13)]\<rparr>"

section \<open>Properties of the portfolio and its rebalancing policy\<close>

subsection \<open>Construction\<close>

lemma round_half_even_eq:
  "round_half_even y = 100000 \<longleftrightarrow> 199999 / 2 \<le> y \<and> y \<le> 200001 / 2"
proof -
  define f where "f = \<lfloor>y\<rfloor>"
  have lo: "of_int f \<le> y" and hi: "y < of_int f + 1"
    unfolding f_def by linarith+
  consider "f \<le> 99998" | "f = 99999" | "f = 100000" | "100001 \<le> f" by linarith
  then show ?thesis
  proof cases
    case 1
    then have "y < 99999" using hi by linarith
    with 1 show ?thesis
      unfolding round_half_even_def Let_def f_def [symmetric] by (auto split: if_splits)
  next
    case 2
    with lo hi show ?thesis
      unfolding round_half_even_def Let_def f_def [symmetric] by (auto split: if_splits)
  next
    case 3
    with lo hi show ?thesis
      unfolding round_half_even_def Let_def f_def [symmetric] by (auto split: if_splits)
  next
    case 4
    then have "100001 \<le> y" using lo by linarith
    with 4 show ?thesis
      unfolding round_half_even_def Let_def f_def [symmetric] by (auto split: if_splits)
  qed
qed

lemma py_round_5_eq_1:
  "py_round x 5 = 1 \<longleftrightarrow> \<bar>x - 1\<bar> \<le> 1 / 200000"
proof -
  have "py_round x 5 = 1 \<longleftrightarrow> round_half_even (x * 100000) = 100000"
    by (simp add: py_round_def field_simps)
  also have "\<dots> \<longleftrightarrow> 199999 / 2 \<le> x * 100000 \<and> x * 100000 \<le> 200001 / 2"
    by (rule round_half_even_eq)
  also have "\<dots> \<longleftrightarrow> \<bar>x - 1\<bar> \<le> 1 / 200000"
    by linarith
  finally show ?thesis .
qed

lemma Portfolio_init_fields:
  "Portfolio_init w freq = Inr p \<Longrightarrow>
     rebalance_frequency p = freq \<and> last_rebalance_date p = None"
  by (cases w) (auto split: if_splits)

lemma Portfolio_init_single:
  "Portfolio_init (Dict [(StrKey t, 1)]) freq =
     Inr \<lparr>target_weights = [(t, 1)], rebalance_frequency = freq, last_rebalance_date = None\<rparr>"
  by (simp add: py_round_5_eq_1 sum_values_def)

text \<open>
  Claim C7.  Constructing a portfolio succeeds only when its argument is a dict whose
  weights sum to 1 within 1e-5 (the rounding to five decimals accepts exactly the sums
  within 5e-6 of 1), and a dict whose weights sum to 0.95 or to 1.05 is rejected: with
  \<open>ValueError\<close> when all its keys are strings, with \<open>TypeError\<close> otherwise.
\<close>

theorem Portfolio_init_validates_weight_sum:
  "(Portfolio_init w freq = Inr p \<longrightarrow>
      (\<exists>kvs. w = Dict kvs \<and> \<bar>sum_values kvs - 1\<bar> \<le> 1 / 100000)) \<and>
   (sum_values kvs' = 95 / 100 \<or> sum_values kvs' = 105 / 100 \<longrightarrow>
      Portfolio_init (Dict kvs') freq =
        Inl (if list_all is_str (map fst kvs') then ValueError else TypeError))"
proof (intro conjI impI)
  assume ok: "Portfolio_init w freq = Inr p"
  then obtain kvs where w: "w = Dict kvs" by (cases w) auto
  from ok w have "py_round (sum_values kvs) 5 = 1"
    by (auto split: if_splits)
  then have "\<bar>sum_values kvs - 1\<bar> \<le> 1 / 200000"
    by (simp only: py_round_5_eq_1)
  then have "\<bar>sum_values kvs - 1\<bar> \<le> 1 / 100000" by linarith
  with w show "\<exists>kvs. w = Dict kvs \<and> \<bar>sum_values kvs - 1\<bar> \<le> 1 / 100000" by blast
next
  assume "sum_values kvs' = 95 / 100 \<or> sum_values kvs' = 105 / 100"
  then have "\<not> \<bar>sum_values kvs' - 1\<bar> \<le> 1 / 200000" by auto
  then have "py_round (sum_values kvs') 5 \<noteq> 1"
    by (simp only: py_round_5_eq_1 not_False_eq_True)
  then show "Portfolio_init (Dict kvs') freq =
      Inl (if list_all is_str (map fst kvs') then ValueError else TypeError)"
    by simp
qed

theorem Portfolio_init_validates_weight_sum_witness:
  "Portfolio_init (Dict [(StrKey ''AAPL'', 6 / 10), (StrKey ''GOOG'', 4 / 10)]) (Some ''monthly'') =
     Inr \<lparr>target_weights = [(''AAPL'', 6 / 10), (''GOOG'', 4 / 10)],
          rebalance_frequency = Some ''monthly'', last_rebalance_date = None\<rparr> \<and>
   \<bar>sum_values [(StrKey ''AAPL'', 6 / 10), (StrKey ''GOOG'', 4 / 10)] - 1\<bar> \<le> 1 / 100000 \<and>
   sum_values [(StrKey ''AAPL'', 55 / 100), (StrKey ''GOOG'', 4 / 10)] = 95 / 100 \<and>
   Portfolio_init (Dict [(StrKey ''AAPL'', 55 / 100), (StrKey ''GOOG'', 4 / 10)]) (Some ''monthly'') =
     Inl ValueError \<and>
   sum_values [(StrKey ''AAPL'', 65 / 100), (OtherKey, 4 / 10)] = 105 / 100 \<and>
   Portfolio_init (Dict [(StrKey ''AAPL'', 65 / 100), (OtherKey, 4 / 10)]) None = Inl TypeError"
proof -
  let ?good = "[(StrKey ''AAPL'', 6 / 10), (StrKey ''GOOG'', 4 / 10)]"
  let ?low = "[(StrKey ''AAPL'', 55 / 100), (StrKey ''GOOG'', 4 / 10)]"
  let ?high = "[(StrKey ''AAPL'', 65 / 100), (OtherKey, 4 / 10)]"
  have good: "Portfolio_init (Dict ?good) (Some ''monthly'') =
     Inr \<lparr>target_weights = [(''AAPL'', 6 / 10), (''GOOG'', 4 / 10)],
          rebalance_frequency = Some ''monthly'', last_rebalance_date = None\<rparr>"
    by (simp add: py_round_5_eq_1 sum_values_def)
  have low: "sum_values ?low = 95 / 100" by (simp add: sum_values_def)
  have high: "sum_values ?high = 105 / 100" by (simp add: sum_values_def)
  have "\<bar>sum_values ?good - 1\<bar> \<le> 1 / 100000"
    using Portfolio_init_validates_weight_sum [of "Dict ?good" "Some ''monthly''" _ ?low] good
    by auto
  moreover have "Portfolio_init (Dict ?low) (Some ''monthly'') = Inl ValueError"
    using Portfolio_init_validates_weight_sum [of "Dict ?good" "Some ''monthly''" _ ?low] low
    by simp
  moreover have "Portfolio_init (Dict ?high) None = Inl TypeError"
    using Portfolio_init_validates_weight_sum [of "Dict ?good" None _ ?high] high
    by simp
  ultimately show ?thesis using good low high by simp
qed

subsection \<open>Buy and hold\<close>

lemma should_rebalance_None:
  "rebalance_frequency p = None \<Longrightarrow> should_rebalance p d = (False, p)"
  by (simp add: should_rebalance_def)

lemma rebalance_calls_None:
  "rebalance_frequency p = None \<Longrightarrow> rebalance_calls p ds = (replicate (length ds) False, p)"
  by (induction ds) (simp_all add: should_rebalance_None)

text \<open>
  Claim C10.  A portfolio constructed with frequency \<open>None\<close> starts with no stored
  date; every call of a sequence of calls answers false and the portfolio after any number
  of calls is the one constructed, so the stored date is never set, not even by the first
  call.
\<close>

theorem buy_and_hold_never_rebalances:
  "Portfolio_init w None = Inr p \<Longrightarrow>
     last_rebalance_date p = None \<and>
     rebalance_calls p ds = (replicate (length ds) False, p) \<and>
     should_rebalance (snd (rebalance_calls p ds)) d = (False, p)"
  using Portfolio_init_fields [of w None p]
  by (simp add: rebalance_calls_None should_rebalance_None)

theorem buy_and_hold_never_rebalances_witness:
  "Portfolio_init (Dict [(StrKey ''SPY'', 1)]) None = Inr \<lparr>target_weights = [(''SPY'', 1)], rebalance_frequency = None, last_rebalance_date = None\<rparr> \<and>
   rebalance_calls \<lparr>target_weights = [(''SPY'', 1)], rebalance_frequency = None, last_rebalance_date = None\<rparr>
     [\<lparr>year = 2024, month = 1, day = 15\<rparr>, \<lparr>year = 2024, month = 1, day = 20\<rparr>, \<lparr>year = 2024, month = 2, day = 3\<rparr>] =
     ([False, False, False], \<lparr>target_weights = [(''SPY'', 1)], rebalance_frequency = None, last_rebalance_date = None\<rparr>) \<and>
   should_rebalance
     (snd (rebalance_calls \<lparr>target_weights = [(''SPY'', 1)], rebalance_frequency = None, last_rebalance_date = None\<rparr>
        [\<lparr>year = 2024, month = 1, day = 15\<rparr>, \<lparr>year = 2024, month = 1, day = 20\<rparr>, \<lparr>year = 2024, month = 2, day = 3\<rparr>])) \<lparr>year = 2024, month = 2, day = 4\<rparr> =
     (False, \<lparr>target_weights = [(''SPY'', 1)], rebalance_frequency = None, last_rebalance_date = None\<rparr>)"
proof -
  let ?p = "\<lparr>target_weights = [(''SPY'', 1)], rebalance_frequency = None, last_rebalance_date = None\<rparr>"
  let ?ds = "[\<lparr>year = 2024, month = 1, day = 15\<rparr>, \<lparr>year = 2024, month = 1, day = 20\<rparr>, \<lparr>year = 2024, month = 2, day = 3\<rparr>]"
  have init: "Portfolio_init (Dict [(StrKey ''SPY'', 1)]) None = Inr ?p"
    by (rule Portfolio_init_single)
  note inst = buy_and_hold_never_rebalances [OF init, of ?ds "\<lparr>year = 2024, month = 2, day = 4\<rparr>"]
  have "replicate (length ?ds) False = [False, False, False]" by simp
  with inst have "rebalance_calls ?p ?ds = ([False, False, False], ?p)" by (simp only:)
  with inst init show ?thesis by blast
qed

subsection \<open>Periodic rebalancing\<close>

lemma quarter_bounds: "valid_date d \<Longrightarrow> 1 \<le> quarter d \<and> quarter d \<le> 4"
  by (auto simp: valid_date_def quarter_def)

lemma date_le_period:
  "valid_date a \<Longrightarrow> valid_date b \<Longrightarrow> date_le a b \<Longrightarrow>
     calendar_period freq a \<le> calendar_period freq b"
  unfolding calendar_period_def date_le_def valid_date_def quarter_def
  by (auto simp: div_le_mono)

lemma month_cycle:
  fixes ya yb :: int and ma mb :: nat
  assumes "1 \<le> ma" "ma \<le> 12" "1 \<le> mb" "mb \<le> 12"
    and "12 * ya + (int ma - 1) \<le> 12 * yb + (int mb - 1)"
    and "12 * yb + (int mb - 1) - (12 * ya + (int ma - 1)) < 12"
  shows "mb \<noteq> ma \<longleftrightarrow> 12 * yb + (int mb - 1) \<noteq> 12 * ya + (int ma - 1)"
proof -
  consider "yb < ya" | "yb = ya" | "ya < yb" by linarith
  then show ?thesis
  proof cases
    case 1
    then have "yb + 1 \<le> ya" by simp
    with assms show ?thesis by linarith
  next
    case 2
    then show ?thesis by auto
  next
    case 3
    then have "ya + 1 \<le> yb" by simp
    with assms show ?thesis by linarith
  qed
qed

lemma same_month:
  fixes ya yb :: int and ma mb :: nat
  assumes "1 \<le> ma" "ma \<le> 12" "1 \<le> mb" "mb \<le> 12"
    and "12 * ya + (int ma - 1) = 12 * yb + (int mb - 1)"
  shows "ma = mb"
proof -
  consider "yb < ya" | "yb = ya" | "ya < yb" by linarith
  then show ?thesis
  proof cases
    case 1
    then have "yb + 1 \<le> ya" by simp
    with assms show ?thesis by linarith
  next
    case 2
    with assms show ?thesis by auto
  next
    case 3
    then have "ya + 1 \<le> yb" by simp
    with assms show ?thesis by linarith
  qed
qed

lemma quarter_cycle:
  fixes ya yb :: int and qa qb :: nat
  assumes "1 \<le> qa" "qa \<le> 4" "1 \<le> qb" "qb \<le> 4"
    and "4 * ya + (int qa - 1) \<le> 4 * yb + (int qb - 1)"
    and "4 * yb + (int qb - 1) - (4 * ya + (int qa - 1)) < 4"
  shows "qb \<noteq> qa \<longleftrightarrow> 4 * yb + (int qb - 1) \<noteq> 4 * ya + (int qa - 1)"
proof -
  consider "yb < ya" | "yb = ya" | "ya < yb" by linarith
  then show ?thesis
  proof cases
    case 1
    then have "yb + 1 \<le> ya" by simp
    with assms show ?thesis by linarith
  next
    case 2
    then show ?thesis by auto
  next
    case 3
    then have "ya + 1 \<le> yb" by simp
    with assms show ?thesis by linarith
  qed
qed

lemma same_quarter:
  fixes ya yb :: int and qa qb :: nat
  assumes "1 \<le> qa" "qa \<le> 4" "1 \<le> qb" "qb \<le> 4"
    and "4 * ya + (int qa - 1) = 4 * yb + (int qb - 1)"
  shows "qa = qb"
proof -
  consider "yb < ya" | "yb = ya" | "ya < yb" by linarith
  then show ?thesis
  proof cases
    case 1
    then have "yb + 1 \<le> ya" by simp
    with assms show ?thesis by linarith
  next
    case 2
    with assms show ?thesis by auto
  next
    case 3
    then have "ya + 1 \<le> yb" by simp
    with assms show ?thesis by linarith
  qed
qed

lemma calendar_period_simps:
  "calendar_period ''monthly'' d = 12 * year d + (int (month d) - 1)"
  "calendar_period ''quarterly'' d = 4 * year d + (int (quarter d) - 1)"
  "calendar_period ''annually'' d = year d"
  by (simp_all add: calendar_period_def)

lemma same_period_fields:
  assumes "valid_date s" "valid_date a" "calendar_period freq s = calendar_period freq a"
  shows "freq = ''monthly'' \<longrightarrow> month s = month a"
    and "freq = ''quarterly'' \<longrightarrow> quarter s = quarter a"
    and "freq = ''annually'' \<longrightarrow> year s = year a"
proof -
  have qa: "1 \<le> quarter a \<and> quarter a \<le> 4" and qs: "1 \<le> quarter s \<and> quarter s \<le> 4"
    using assms quarter_bounds by blast+
  have ma: "1 \<le> month a \<and> month a \<le> 12" and ms: "1 \<le> month s \<and> month s \<le> 12"
    using assms by (simp_all add: valid_date_def)
  show "freq = ''monthly'' \<longrightarrow> month s = month a"
  proof
    assume "freq = ''monthly''"
    then have "12 * year s + (int (month s) - 1) = 12 * year a + (int (month a) - 1)"
      using assms(3) by (simp add: calendar_period_simps)
    with ma ms show "month s = month a"
      using same_month [of "month s" "month a" "year s" "year a"] by simp
  qed
  show "freq = ''quarterly'' \<longrightarrow> quarter s = quarter a"
  proof
    assume "freq = ''quarterly''"
    then have "4 * year s + (int (quarter s) - 1) = 4 * year a + (int (quarter a) - 1)"
      using assms(3) by (simp add: calendar_period_simps)
    with qa qs show "quarter s = quarter a"
      using same_quarter [of "quarter s" "quarter a" "year s" "year a"] by simp
  qed
  show "freq = ''annually'' \<longrightarrow> year s = year a"
    using assms(3) by (auto simp: calendar_period_simps)
qed

lemma should_rebalance_period:
  assumes "named_frequency freq" "valid_date a" "valid_date b" "valid_date s"
    and "calendar_period freq s = calendar_period freq a"
    and "date_le a b" "within_a_year freq a b"
    and "rebalance_frequency p = Some freq" "last_rebalance_date p = Some s"
  shows "should_rebalance p b =
         (calendar_period freq b \<noteq> calendar_period freq s,
          if calendar_period freq b \<noteq> calendar_period freq s
          then p\<lparr>last_rebalance_date := Some b\<rparr> else p)"
proof -
  have le: "calendar_period freq a \<le> calendar_period freq b"
    using assms date_le_period by blast
  have qa: "1 \<le> quarter a \<and> quarter a \<le> 4" and qb: "1 \<le> quarter b \<and> quarter b \<le> 4"
    using assms quarter_bounds by blast+
  note sf = same_period_fields [OF assms(4) assms(2) assms(5)]
  consider "freq = ''monthly''" | "freq = ''quarterly''" | "freq = ''annually''"
    using assms(1) by (auto simp: named_frequency_def)
  then show ?thesis
  proof cases
    case 1
    then have "month s = month a" using sf by simp
    moreover have "month b \<noteq> month a \<longleftrightarrow> calendar_period freq b \<noteq> calendar_period freq a"
      using month_cycle [of "month a" "month b" "year a" "year b"] assms(2,3,7) le 1
      by (simp add: calendar_period_simps within_a_year_def valid_date_def periods_per_year_def)
    ultimately show ?thesis
      using 1 assms(5,8,9) by (simp add: should_rebalance_def)
  next
    case 2
    then have "quarter s = quarter a" using sf by simp
    moreover have "quarter b \<noteq> quarter a \<longleftrightarrow> calendar_period freq b \<noteq> calendar_period freq a"
      using quarter_cycle [of "quarter a" "quarter b" "year a" "year b"] qa qb assms(7) le 2
      by (simp add: calendar_period_simps within_a_year_def periods_per_year_def)
    ultimately show ?thesis
      using 2 assms(5,8,9) by (simp add: should_rebalance_def)
  next
    case 3
    then show ?thesis
      using assms(8,9) by (simp add: should_rebalance_def calendar_period_simps)
  qed
qed


lemma rebalance_calls_snoc:
  "snd (rebalance_calls p (ds @ [d])) = snd (should_rebalance (snd (rebalance_calls p ds)) d)"
proof (induction ds arbitrary: p)
  case Nil
  show ?case by (simp add: case_prod_unfold Let_def)
next
  case (Cons a ds)
  show ?case using Cons [of "snd (should_rebalance p a)"] by (simp add: case_prod_unfold Let_def)
qed

lemma stored_date_invariant:
  assumes nf: "named_frequency freq"
    and f0: "rebalance_frequency p0 = Some freq"
    and l0: "last_rebalance_date p0 = None"
    and ok: "call_sequence_ok freq ds"
  shows "k < length ds \<Longrightarrow>
     \<exists>s. last_rebalance_date (snd (rebalance_calls p0 (take (Suc k) ds))) = Some s \<and>
         rebalance_frequency (snd (rebalance_calls p0 (take (Suc k) ds))) = Some freq \<and>
         valid_date s \<and> calendar_period freq s = calendar_period freq (ds ! k)"
proof (induction k)
  case 0
  then have "take (Suc 0) ds = [ds ! 0]"
    by (cases ds) simp_all
  moreover have "valid_date (ds ! 0)"
    using ok 0 by (simp add: call_sequence_ok_def list_all_length)
  ultimately show ?case
    using f0 l0 by (simp add: should_rebalance_def)
next
  case (Suc k)
  define p where "p = snd (rebalance_calls p0 (take (Suc k) ds))"
  from Suc have "\<exists>s. last_rebalance_date p = Some s \<and> rebalance_frequency p = Some freq \<and>
      valid_date s \<and> calendar_period freq s = calendar_period freq (ds ! k)"
    unfolding p_def by simp
  then obtain s where s: "last_rebalance_date p = Some s"
      "rebalance_frequency p = Some freq" "valid_date s"
      "calendar_period freq s = calendar_period freq (ds ! k)"
    by blast
  have va: "valid_date (ds ! k)" and vb: "valid_date (ds ! Suc k)"
    using ok Suc.prems by (simp_all add: call_sequence_ok_def list_all_length)
  have rel: "date_le (ds ! k) (ds ! Suc k)" "within_a_year freq (ds ! k) (ds ! Suc k)"
    using ok Suc.prems successively_nth [of "\<lambda>a b. date_le a b \<and> within_a_year freq a b" ds k]
    by (simp_all add: call_sequence_ok_def)
  have step: "should_rebalance p (ds ! Suc k) =
         (calendar_period freq (ds ! Suc k) \<noteq> calendar_period freq s,
          if calendar_period freq (ds ! Suc k) \<noteq> calendar_period freq s
          then p\<lparr>last_rebalance_date := Some (ds ! Suc k)\<rparr> else p)"
    by (rule should_rebalance_period [OF nf va vb s(3) s(4) rel s(2) s(1)])
  have "take (Suc (Suc k)) ds = take (Suc k) ds @ [ds ! Suc k]"
    using Suc.prems by (simp add: take_Suc_conv_app_nth)
  then have eq: "snd (rebalance_calls p0 (take (Suc (Suc k)) ds)) =
      snd (should_rebalance p (ds ! Suc k))"
    unfolding p_def by (simp only: rebalance_calls_snoc)
  show ?case
  proof (cases "calendar_period freq (ds ! Suc k) \<noteq> calendar_period freq s")
    case True
    then have "snd (rebalance_calls p0 (take (Suc (Suc k)) ds)) = p\<lparr>last_rebalance_date := Some (ds ! Suc k)\<rparr>"
      using eq step by simp
    then show ?thesis using s vb by simp
  next
    case False
    then have "snd (rebalance_calls p0 (take (Suc (Suc k)) ds)) = p"
      using eq step by simp
    then show ?thesis using s False by simp
  qed
qed

text \<open>
  Claim C1, as the code has it.  The code compares the month number (1 to 12), the
  quarter number (1 to 4) or the year of the two dates.  For a policy with one of the
  three named frequencies, freshly constructed, and a sequence of calls on valid dates in
  non-decreasing order in which consecutive dates are less than a year of periods apart
  (see \<^const>\<open>within_a_year\<close>), every call after the first finds a stored date and
  answers true exactly when the calendar period of the current date differs from that of
  the stored date; on true the stored date becomes the current date, otherwise the
  portfolio is unchanged.
\<close>

theorem rebalance_iff_calendar_period_changes:
  assumes "named_frequency freq"
    and "rebalance_frequency p0 = Some freq"
    and "last_rebalance_date p0 = None"
    and "call_sequence_ok freq ds"
    and "0 < k" "k < length ds"
  shows "\<exists>s. last_rebalance_date (snd (rebalance_calls p0 (take k ds))) = Some s \<and>
     should_rebalance (snd (rebalance_calls p0 (take k ds))) (ds ! k) =
       (calendar_period freq (ds ! k) \<noteq> calendar_period freq s,
        if calendar_period freq (ds ! k) \<noteq> calendar_period freq s
        then (snd (rebalance_calls p0 (take k ds)))\<lparr>last_rebalance_date := Some (ds ! k)\<rparr>
        else snd (rebalance_calls p0 (take k ds)))"
proof -
  obtain j where k: "k = Suc j" using assms(5) by (cases k) auto
  let ?p = "snd (rebalance_calls p0 (take k ds))"
  from stored_date_invariant [OF assms(1-4), of j] assms(6) k
  obtain s where s: "last_rebalance_date ?p = Some s"
      "rebalance_frequency ?p = Some freq" "valid_date s"
      "calendar_period freq s = calendar_period freq (ds ! j)"
    by auto
  have va: "valid_date (ds ! j)" and vb: "valid_date (ds ! k)"
    using assms(4,6) k by (simp_all add: call_sequence_ok_def list_all_length)
  have rel: "date_le (ds ! j) (ds ! k) \<and> within_a_year freq (ds ! j) (ds ! k)"
    using assms(4,6) k successively_nth [of "\<lambda>a b. date_le a b \<and> within_a_year freq a b" ds j]
    by (simp add: call_sequence_ok_def)
  show ?thesis
    using should_rebalance_period [OF assms(1) va vb s(3) s(4) _ _ s(2) s(1)] rel s(1) by simp
qed

theorem rebalance_iff_calendar_period_changes_witness:
  "named_frequency ''monthly'' \<and>
   call_sequence_ok ''monthly'' [\<lparr>year = 2024, month = 1, day = 15\<rparr>, \<lparr>year = 2024, month = 1, day = 20\<rparr>, \<lparr>year = 2024, month = 2, day = 3\<rparr>] \<and>
   should_rebalance
     (snd (rebalance_calls \<lparr>target_weights = [(''SPY'', 1)], rebalance_frequency = Some ''monthly'', last_rebalance_date = None\<rparr>
        (take 2 [\<lparr>year = 2024, month = 1, day = 15\<rparr>, \<lparr>year = 2024, month = 1, day = 20\<rparr>, \<lparr>year = 2024, month = 2, day = 3\<rparr>])))
     ([\<lparr>year = 2024, month = 1, day = 15\<rparr>, \<lparr>year = 2024, month = 1, day = 20\<rparr>, \<lparr>year = 2024, month = 2, day = 3\<rparr>] ! 2) =
     (True, \<lparr>target_weights = [(''SPY'', 1)], rebalance_frequency = Some ''monthly'', last_rebalance_date = Some \<lparr>year = 2024, month = 2, day = 3\<rparr>\<rparr>)"
proof -
  let ?p0 = "\<lparr>target_weights = [(''SPY'', 1)], rebalance_frequency = Some ''monthly'', last_rebalance_date = None\<rparr>"
  let ?ds = "[\<lparr>year = 2024, month = 1, day = 15\<rparr>, \<lparr>year = 2024, month = 1, day = 20\<rparr>, \<lparr>year = 2024, month = 2, day = 3\<rparr>]"
  have nf: "named_frequency ''monthly''" by (simp add: named_frequency_def)
  have ok: "call_sequence_ok ''monthly'' ?ds"
    by (simp add: call_sequence_ok_def valid_date_def date_le_def within_a_year_def
        calendar_period_def periods_per_year_def)
  have stored: "last_rebalance_date (snd (rebalance_calls ?p0 (take 2 ?ds))) =
      Some \<lparr>year = 2024, month = 1, day = 15\<rparr>"
    by (simp add: should_rebalance_def numeral_2_eq_2)
  have pk: "snd (rebalance_calls ?p0 (take 2 ?ds)) = \<lparr>target_weights = [(''SPY'', 1)], rebalance_frequency = Some ''monthly'', last_rebalance_date = Some \<lparr>year = 2024, month = 1, day = 15\<rparr>\<rparr>"
    by (simp add: should_rebalance_def numeral_2_eq_2)
  from rebalance_iff_calendar_period_changes [of "''monthly''" ?p0 ?ds 2, OF nf _ _ ok]
  obtain s where s: "last_rebalance_date (snd (rebalance_calls ?p0 (take 2 ?ds))) = Some s"
    "should_rebalance (snd (rebalance_calls ?p0 (take 2 ?ds))) (?ds ! 2) =
       (calendar_period ''monthly'' (?ds ! 2) \<noteq> calendar_period ''monthly'' s,
        if calendar_period ''monthly'' (?ds ! 2) \<noteq> calendar_period ''monthly'' s
        then (snd (rebalance_calls ?p0 (take 2 ?ds)))\<lparr>last_rebalance_date := Some (?ds ! 2)\<rparr>
        else snd (rebalance_calls ?p0 (take 2 ?ds)))"
    by auto
  from s(1) stored have sd: "s = \<lparr>year = 2024, month = 1, day = 15\<rparr>" by simp
  have "should_rebalance (snd (rebalance_calls ?p0 (take 2 ?ds))) (?ds ! 2) =
     (True, \<lparr>target_weights = [(''SPY'', 1)], rebalance_frequency = Some ''monthly'', last_rebalance_date = Some \<lparr>year = 2024, month = 2, day = 3\<rparr>\<rparr>)"
    using s(2) unfolding pk sd by (simp add: calendar_period_def)
  with nf ok show ?thesis by blast
qed

text \<open>
  Claim C1, as stated, fails.  A monthly policy is called on 16 January 2023 and next on
  16 January 2024, in date order.  The second call finds 16 January 2023 stored; the
  calendar months of the two dates differ, yet the call answers false and leaves the
  stored date as it is, since both dates have month number 1.
\<close>

theorem rebalance_same_month_number_counterexample:
  "Portfolio_init (Dict [(StrKey ''SPY'', 1)]) (Some ''monthly'') = Inr \<lparr>target_weights = [(''SPY'', 1)], rebalance_frequency = Some ''monthly'', last_rebalance_date = None\<rparr> \<and>
   valid_date \<lparr>year = 2023, month = 1, day = 16\<rparr> \<and> valid_date \<lparr>year = 2024, month = 1, day = 16\<rparr> \<and>
   date_le \<lparr>year = 2023, month = 1, day = 16\<rparr> \<lparr>year = 2024, month = 1, day = 16\<rparr> \<and>
   rebalance_calls \<lparr>target_weights = [(''SPY'', 1)], rebalance_frequency = Some ''monthly'', last_rebalance_date = None\<rparr> [\<lparr>year = 2023, month = 1, day = 16\<rparr>] =
     ([False], \<lparr>target_weights = [(''SPY'', 1)], rebalance_frequency = Some ''monthly'', last_rebalance_date = Some \<lparr>year = 2023, month = 1, day = 16\<rparr>\<rparr>) \<and>
   calendar_period ''monthly'' \<lparr>year = 2024, month = 1, day = 16\<rparr> \<noteq>
     calendar_period ''monthly'' \<lparr>year = 2023, month = 1, day = 16\<rparr> \<and>
   should_rebalance \<lparr>target_weights = [(''SPY'', 1)], rebalance_frequency = Some ''monthly'', last_rebalance_date = Some \<lparr>year = 2023, month = 1, day = 16\<rparr>\<rparr> \<lparr>year = 2024, month = 1, day = 16\<rparr> =
     (False, \<lparr>target_weights = [(''SPY'', 1)], rebalance_frequency = Some ''monthly'', last_rebalance_date = Some \<lparr>year = 2023, month = 1, day = 16\<rparr>\<rparr>)"
  by (simp add: py_round_5_eq_1 sum_values_def valid_date_def date_le_def
      should_rebalance_def calendar_period_def)

section \<open>Properties of the backtest engine\<close>

lemmas sim_eval = simulate_day_def handle_date_changes_def should_rebalance_def deploy_cash_def
  record_value_def total_value_def market_value_def holdings_keys_def getitem_def initial_sim_def
  run_backtest_def Let_def

lemmas example_defs = jan_prices_def feb_prices_def two_assets_def sixty_forty_def

subsection \<open>The loop returns, and what it keeps\<close>

lemma should_rebalance_keeps:
  "target_weights (snd (should_rebalance p d)) = target_weights p"
  "rebalance_frequency (snd (should_rebalance p d)) = rebalance_frequency p"
  by (auto simp: should_rebalance_def split: option.splits)

lemma set_holdings_total:
  "set (map fst tw) \<subseteq> set cols \<Longrightarrow> \<exists>h'. set_holdings cols prices tv tw h = Inr h'"
  by (induction tw arbitrary: h) (auto simp: getitem_def)

lemma set_holdings_KeyError:
  "set_holdings cols prices tv tw h = Inl e \<Longrightarrow> e = KeyError"
  by (induction tw arbitrary: h) (auto simp: getitem_def split: if_splits)

lemma set_holdings_Inr_keys:
  "set_holdings cols prices tv tw h = Inr h' \<Longrightarrow> set (map fst tw) \<subseteq> set cols"
proof (induction tw arbitrary: h)
  case Nil
  show ?case by simp
next
  case (Cons kv tw)
  obtain t w where kv: "kv = (t, w)" by (cases kv)
  from Cons.prems kv have t: "t \<in> set cols"
    by (auto simp: getitem_def split: if_splits)
  from Cons.prems kv t obtain h1 where "set_holdings cols prices tv tw h1 = Inr h'"
    by (auto simp: getitem_def split: if_splits)
  from Cons.IH [OF this] t kv show ?case by simp
qed

lemma set_holdings_other:
  "set_holdings cols prices tv tw h = Inr h' \<Longrightarrow> t \<notin> set (map fst tw) \<Longrightarrow> h' t = h t"
  by (induction tw arbitrary: h) (auto simp: getitem_def split: if_splits)

lemma deploy_cash_total:
  "set (map fst (target_weights (policy s))) \<subseteq> set cols \<Longrightarrow>
     \<exists>s'. deploy_cash cols s prices = Inr s'"
  using set_holdings_total [of "target_weights (policy s)" cols prices
      "market_value cols (holdings s) prices + cash s" "holdings s"]
  by (auto simp: deploy_cash_def Let_def split: sum.splits)

lemma deploy_cash_fields:
  "deploy_cash cols s prices = Inr s' \<Longrightarrow>
     policy s' = policy s \<and> portfolio_history s' = portfolio_history s \<and> cash s' = 0 \<and>
     set_holdings cols prices (total_value cols s prices) (target_weights (policy s)) (holdings s)
       = Inr (holdings s') \<and>
     current_monthly_topup s' = current_monthly_topup s \<and>
     last_month s' = last_month s \<and> last_year s' = last_year s"
  by (auto simp: deploy_cash_def total_value_def Let_def split: sum.splits)

lemma handle_date_changes_fields:
  "policy (handle_date_changes ai s d) = policy s"
  "portfolio_history (handle_date_changes ai s d) = portfolio_history s"
  "holdings (handle_date_changes ai s d) = holdings s"
  "last_month (handle_date_changes ai s d) = Some (month d)"
  "last_year (handle_date_changes ai s d) = Some (year d)"
  by (simp_all add: handle_date_changes_def Let_def)

lemma simulate_day_Inr:
  assumes "simulate_day cols ai s row = Inr s'"
  shows "portfolio_history s' = portfolio_history s @ [(fst row, total_value cols s' (snd row))]"
    and "target_weights (policy s') = target_weights (policy s)"
    and "rebalance_frequency (policy s') = rebalance_frequency (policy s)"
    and "last_month s' = Some (month (fst row))"
proof -
  let ?s1 = "handle_date_changes ai s (fst row)"
  let ?r = "should_rebalance (policy ?s1) (fst row)"
  let ?s2 = "?s1\<lparr>policy := snd ?r\<rparr>"
  have tw: "target_weights (snd ?r) = target_weights (policy s)"
    and fr: "rebalance_frequency (snd ?r) = rebalance_frequency (policy s)"
    by (simp_all add: should_rebalance_keeps handle_date_changes_fields)
  show "portfolio_history s' = portfolio_history s @ [(fst row, total_value cols s' (snd row))]"
    using assms deploy_cash_fields [of cols ?s2 "snd row"]
    by (auto simp: simulate_day_def Let_def case_prod_unfold record_value_def total_value_def
        handle_date_changes_fields split: if_splits sum.splits)
  show "target_weights (policy s') = target_weights (policy s)"
    using assms deploy_cash_fields [of cols ?s2 "snd row"] tw
    by (auto simp: simulate_day_def Let_def case_prod_unfold record_value_def
        handle_date_changes_fields split: if_splits sum.splits)
  show "rebalance_frequency (policy s') = rebalance_frequency (policy s)"
    using assms deploy_cash_fields [of cols ?s2 "snd row"] fr
    by (auto simp: simulate_day_def Let_def case_prod_unfold record_value_def
        handle_date_changes_fields split: if_splits sum.splits)
  show "last_month s' = Some (month (fst row))"
    using assms deploy_cash_fields [of cols ?s2 "snd row"]
    by (auto simp: simulate_day_def Let_def case_prod_unfold record_value_def
        handle_date_changes_fields split: if_splits sum.splits)
qed

lemma simulate_day_total:
  assumes "set (map fst (target_weights (policy s))) \<subseteq> set cols"
  shows "\<exists>s'. simulate_day cols ai s row = Inr s'"
proof -
  let ?s1 = "handle_date_changes ai s (fst row)"
  let ?r = "should_rebalance (policy ?s1) (fst row)"
  let ?s2 = "?s1\<lparr>policy := snd ?r\<rparr>"
  have "target_weights (policy ?s2) = target_weights (policy s)"
    by (simp add: should_rebalance_keeps handle_date_changes_fields)
  with assms obtain s3 where "deploy_cash cols ?s2 (snd row) = Inr s3"
    using deploy_cash_total [of ?s2 cols "snd row"] by auto
  then show ?thesis
    by (auto simp: simulate_day_def Let_def case_prod_unfold)
qed

lemma simulate_day_error:
  "simulate_day cols ai s row = Inl e \<Longrightarrow> e = KeyError"
  by (auto simp: simulate_day_def Let_def case_prod_unfold deploy_cash_def
      split: if_splits sum.splits dest: set_holdings_KeyError)

lemma simulate_total:
  "set (map fst (target_weights (policy s))) \<subseteq> set cols \<Longrightarrow>
     \<exists>s'. simulate cols ai s rs = Inr s'"
proof (induction rs arbitrary: s)
  case Nil
  show ?case by simp
next
  case (Cons row rs)
  from simulate_day_total [OF Cons.prems, of ai row]
  obtain s1 where s1: "simulate_day cols ai s row = Inr s1" by blast
  with Cons.prems have "set (map fst (target_weights (policy s1))) \<subseteq> set cols"
    by (simp add: simulate_day_Inr)
  from Cons.IH [OF this] s1 show ?case by simp
qed

lemma simulate_history_dates:
  "simulate cols ai s rs = Inr s' \<Longrightarrow>
     map fst (portfolio_history s') = map fst (portfolio_history s) @ map fst rs"
proof (induction rs arbitrary: s)
  case Nil
  then show ?case by simp
next
  case (Cons row rs)
  then obtain s1 where s1: "simulate_day cols ai s row = Inr s1"
    and rest: "simulate cols ai s1 rs = Inr s'"
    by (auto split: sum.splits)
  from Cons.IH [OF rest] simulate_day_Inr(1) [OF s1] show ?case by simp
qed

lemma simulate_snoc:
  "simulate cols ai s (rs @ [row]) =
     (case simulate cols ai s rs of Inl e \<Rightarrow> Inl e | Inr s1 \<Rightarrow> simulate_day cols ai s1 row)"
  by (induction rs arbitrary: s) (auto split: sum.splits)

lemma simulate_last_value:
  assumes "simulate cols ai s rs = Inr s'" "rs \<noteq> []"
  shows "snd (last (portfolio_history s')) = total_value cols s' (snd (last rs))"
proof -
  from assms(2) obtain rs' row where rs: "rs = rs' @ [row]"
    by (metis rev_exhaust)
  with assms(1) obtain s1 where "simulate_day cols ai s1 row = Inr s'"
    by (auto simp: simulate_snoc split: sum.splits)
  from simulate_day_Inr(1) [OF this] rs show ?thesis by simp
qed

lemma simulate_first_day_keys:
  assumes "simulate cols ai s rs = Inr s'" "rs \<noteq> []" "portfolio_history s = []"
  shows "set (map fst (target_weights (policy s))) \<subseteq> set cols"
proof -
  from assms(2) obtain row rest where rs: "rs = row # rest" by (cases rs) auto
  with assms(1) obtain s1 where s1: "simulate_day cols ai s row = Inr s1"
    by (auto split: sum.splits)
  let ?s1 = "handle_date_changes ai s (fst row)"
  let ?r = "should_rebalance (policy ?s1) (fst row)"
  let ?s2 = "?s1\<lparr>policy := snd ?r\<rparr>"
  from s1 assms(3) obtain s3 where "deploy_cash cols ?s2 (snd row) = Inr s3"
    by (auto simp: simulate_day_def Let_def case_prod_unfold handle_date_changes_fields
        split: sum.splits)
  then have "set (map fst (target_weights (policy ?s2))) \<subseteq> set cols"
    using set_holdings_Inr_keys by (auto simp: deploy_cash_def Let_def split: sum.splits)
  then show ?thesis
    by (simp add: should_rebalance_keeps handle_date_changes_fields)
qed

text \<open>
  Claim C4.  For a price table with at least one row: when every ticker of the target
  weights is a column the run returns (otherwise reading the missing price raises
  \<open>KeyError\<close>), and whenever it returns, the value series has the dates of the rows, in
  their order, one entry per row; the returned series, holdings and cash are those of the
  state the loop reaches after the last row, and the last value of the series is the
  returned holdings valued at the last row's prices plus the returned cash.
\<close>

theorem run_backtest_series_and_final_state:
  assumes "rows data \<noteq> []"
  shows "(set (map fst (target_weights pf)) \<subseteq> set (columns data) \<longrightarrow>
            (\<exists>vs h c. run_backtest data pf initial_investment monthly_topup annual_increase
                = Inr (vs, h, c))) \<and>
         (\<forall>vs h c. run_backtest data pf initial_investment monthly_topup annual_increase
                = Inr (vs, h, c) \<longrightarrow>
            map fst vs = map fst (rows data) \<and>
            (\<exists>s. simulate (columns data) annual_increase
                    (initial_sim pf initial_investment monthly_topup) (rows data) = Inr s \<and>
                 vs = portfolio_history s \<and>
                 h = map (\<lambda>ticker. (ticker, holdings s ticker)) (holdings_keys (columns data)) \<and>
                 c = cash s) \<and>
            snd (last vs) = (\<Sum>(ticker, units)\<leftarrow>h. units * snd (last (rows data)) ticker) + c)"
proof (intro conjI impI allI)
  let ?s0 = "initial_sim pf initial_investment monthly_topup"
  assume "set (map fst (target_weights pf)) \<subseteq> set (columns data)"
  then have "set (map fst (target_weights (policy ?s0))) \<subseteq> set (columns data)"
    by (simp add: initial_sim_def)
  from simulate_total [OF this, of annual_increase "rows data"]
  obtain s where s: "simulate (columns data) annual_increase ?s0 (rows data) = Inr s" by blast
  from simulate_history_dates [OF s] assms have "portfolio_history s \<noteq> []"
    by (auto simp: initial_sim_def)
  with s show "\<exists>vs h c. run_backtest data pf initial_investment monthly_topup annual_increase
      = Inr (vs, h, c)"
    by (simp add: run_backtest_def)
next
  fix vs h c
  let ?s0 = "initial_sim pf initial_investment monthly_topup"
  assume run: "run_backtest data pf initial_investment monthly_topup annual_increase
      = Inr (vs, h, c)"
  then obtain s where s: "simulate (columns data) annual_increase ?s0 (rows data) = Inr s"
    and vs: "vs = portfolio_history s"
    and h: "h = map (\<lambda>ticker. (ticker, holdings s ticker)) (holdings_keys (columns data))"
    and c: "c = cash s"
    by (auto simp: run_backtest_def split: sum.splits if_splits)
  from simulate_history_dates [OF s] vs show "map fst vs = map fst (rows data)"
    by (simp add: initial_sim_def)
  from s vs h c show "\<exists>s. simulate (columns data) annual_increase ?s0 (rows data) = Inr s \<and>
      vs = portfolio_history s \<and>
      h = map (\<lambda>ticker. (ticker, holdings s ticker)) (holdings_keys (columns data)) \<and>
      c = cash s"
    by blast
  have "(\<Sum>(ticker, units)\<leftarrow>h. units * snd (last (rows data)) ticker) =
      market_value (columns data) (holdings s) (snd (last (rows data)))"
    unfolding h market_value_def by (simp add: comp_def)
  with simulate_last_value [OF s assms] vs c
  show "snd (last vs) = (\<Sum>(ticker, units)\<leftarrow>h. units * snd (last (rows data)) ticker) + c"
    by (simp add: total_value_def)
qed

theorem run_backtest_series_and_final_state_witness:
  "rows two_assets \<noteq> [] \<and>
   set (map fst (target_weights sixty_forty)) \<subseteq> set (columns two_assets) \<and>
   run_backtest two_assets sixty_forty 1000 100 5 =
     Inr ([(\<lparr>year = 2024, month = 1, day = 15\<rparr>, 1000), (\<lparr>year = 2024, month = 2, day = 3\<rparr>, 1180)], [(''AAPL'', 59), (''GOOG'', 236 / 9)], 0) \<and>
   map fst [(\<lparr>year = 2024, month = 1, day = 15\<rparr>, 1000 :: real), (\<lparr>year = 2024, month = 2, day = 3\<rparr>, 1180)] = map fst (rows two_assets) \<and>
   snd (last [(\<lparr>year = 2024, month = 1, day = 15\<rparr>, 1000 :: real), (\<lparr>year = 2024, month = 2, day = 3\<rparr>, 1180)]) =
     (\<Sum>(ticker, units)\<leftarrow>[(''AAPL'', 59), (''GOOG'', 236 / 9)].
        units * snd (last (rows two_assets)) ticker) + 0"
proof -
  have ne: "rows two_assets \<noteq> []" by (simp add: two_assets_def)
  have sub: "set (map fst (target_weights sixty_forty)) \<subseteq> set (columns two_assets)"
    by (simp add: example_defs)
  have run: "run_backtest two_assets sixty_forty 1000 100 5 =
     Inr ([(\<lparr>year = 2024, month = 1, day = 15\<rparr>, 1000), (\<lparr>year = 2024, month = 2, day = 3\<rparr>, 1180)], [(''AAPL'', 59), (''GOOG'', 236 / 9)], 0)"
    by (simp add: sim_eval example_defs)
  from run_backtest_series_and_final_state [OF ne, of sixty_forty 1000 100 5] run
  have "map fst [(\<lparr>year = 2024, month = 1, day = 15\<rparr>, 1000 :: real), (\<lparr>year = 2024, month = 2, day = 3\<rparr>, 1180)] = map fst (rows two_assets)"
    and "snd (last [(\<lparr>year = 2024, month = 1, day = 15\<rparr>, 1000 :: real), (\<lparr>year = 2024, month = 2, day = 3\<rparr>, 1180)]) =
     (\<Sum>(ticker, units)\<leftarrow>[(''AAPL'', 59), (''GOOG'', 236 / 9)].
        units * snd (last (rows two_assets)) ticker) + 0"
    by blast+
  with ne sub run show ?thesis by blast
qed

section \<open>Properties of the Monte Carlo forecast\<close>

subsection \<open>The rows of the forecast\<close>

lemma price_path_length: "length (price_path p shocks) = length shocks"
  by (induction shocks arbitrary: p) (simp_all add: Let_def)

lemma normal_length: "length (normal z mu sigma n) = n"
  by (simp add: normal_def)

lemma future_date_nth:
  "j < m \<Longrightarrow> map (\<lambda>x. (d, x)) [1..<m + 1] ! j = (d, Suc j)"
  by (simp del: upt_Suc)

lemma run_monte_carlo_simulation_rows:
  assumes "historical_returns \<noteq> []" "0 \<le> projection_years" "0 \<le> num_simulations"
  shows "run_monte_carlo_simulation z historical_returns projection_years initial_value
           num_simulations =
     Inr (map (\<lambda>j. ((fst (last historical_returns), Suc j),
                     quantiles (map (\<lambda>i. price_path (Fin initial_value)
                        (normal (z i) (mean (map snd historical_returns))
                           (std (map snd historical_returns))
                           (nat (projection_years * 252))) ! j)
                        [0..<nat num_simulations])))
            [0..<nat (projection_years * 252)])"
proof -
  have nd: "\<not> projection_years * 252 < 0" using assms(2) by simp
  show ?thesis
    using assms nd
    by (simp add: run_monte_carlo_simulation_def Let_def comp_def del: upt_Suc)
qed

text \<open>
  Claim C9.  For a non-empty series of historical returns, a positive number of
  projection years and a positive number of paths, the simulation returns a forecast with
  exactly \<open>projection_years * 252\<close> rows, dated one to \<open>projection_years * 252\<close>
  calendar days after the last historical date.
\<close>

theorem forecast_row_count:
  assumes "historical_returns \<noteq> []" "0 < projection_years" "0 < num_simulations"
  shows "\<exists>forecast.
     run_monte_carlo_simulation z historical_returns projection_years initial_value
       num_simulations = Inr forecast \<and>
     int (length forecast) = projection_years * 252 \<and>
     map fst forecast =
       map (\<lambda>x. (fst (last historical_returns), x)) [1..<nat (projection_years * 252) + 1]"
proof -
  have "map (\<lambda>j. (fst (last historical_returns), Suc j)) [0..<nat (projection_years * 252)] =
      map (\<lambda>x. (fst (last historical_returns), x)) [1..<nat (projection_years * 252) + 1]"
    by (simp add: map_Suc_upt [symmetric] del: upt_Suc)
  then show ?thesis
    using run_monte_carlo_simulation_rows [of historical_returns projection_years
        num_simulations z initial_value] assms
    by (simp add: comp_def del: upt_Suc)
qed

theorem forecast_row_count_witness:
  "zero_history \<noteq> [] \<and> (0 :: int) < 10 \<and> (0 :: int) < 500 \<and>
   (\<exists>forecast. run_monte_carlo_simulation sample_noise zero_history 10 10000 500 = Inr forecast \<and>
      int (length forecast) = 10 * 252)"
proof -
  have ne: "zero_history \<noteq> []" by (simp add: zero_history_def)
  have p1: "(0 :: int) < 10" and p2: "(0 :: int) < 500" by simp_all
  from forecast_row_count [OF ne p1 p2, of sample_noise 10000]
  have "\<exists>forecast. run_monte_carlo_simulation sample_noise zero_history 10 10000 500 = Inr forecast \<and>
      int (length forecast) = 10 * 252"
    by blast
  with ne p1 p2 show ?thesis by blast
qed

subsection \<open>No historical return\<close>

text \<open>
  Claim C2, as the code has it.  On the empty series the simulation fails, but with the
  \<open>IndexError\<close> of reading the last date of an empty index, raised after the paths have
  been computed from the undefined mean and deviation (with a negative horizon or number
  of paths, \<^verbatim>\<open>np.zeros\<close> raises \<open>ValueError\<close> before that).  It never returns a forecast.
\<close>

theorem empty_history_error:
  "run_monte_carlo_simulation z [] projection_years initial_value num_simulations =
     Inl (if projection_years * 252 < 0 \<or> num_simulations < 0 then ValueError else IndexError)"
  by (simp add: run_monte_carlo_simulation_def Let_def)

text \<open>
  Claim C2, as stated, fails: with ten projection years and 500 paths the error on the
  empty series is \<open>IndexError\<close>, not \<open>InsufficientDataError\<close>, which no function of the
  package raises.
\<close>

theorem empty_history_index_error_counterexample:
  "run_monte_carlo_simulation sample_noise [] 10 10000 500 = Inl IndexError \<and>
   run_monte_carlo_simulation sample_noise [] 10 10000 500 \<noteq> Inl InsufficientDataError"
  by (simp add: run_monte_carlo_simulation_def Let_def)

subsection \<open>Historical returns that are all zero\<close>

lemma all_zero_sum:
  "\<forall>x\<in>set xs. x = (0::real) \<Longrightarrow> sum_list xs = 0"
  by (induction xs) simp_all

lemma all_zero_squares:
  "\<forall>x\<in>set xs. x = (0::real) \<Longrightarrow> (\<Sum>x\<leftarrow>xs. (x - 0)\<^sup>2) = 0"
  by (induction xs) simp_all

lemma mean_all_zero:
  assumes "xs \<noteq> []" "\<forall>x\<in>set xs. x = 0"
  shows "mean xs = Fin 0"
  using assms all_zero_sum [of xs] by (simp add: mean_def)

lemma std_all_zero:
  assumes "2 \<le> length xs" "\<forall>x\<in>set xs. x = 0"
  shows "std xs = Fin 0"
proof -
  have "(\<Sum>x\<leftarrow>xs. (x - sum_list xs / real (length xs))\<^sup>2) = 0"
    using assms(2) all_zero_sum [of xs] all_zero_squares [of xs]
    by simp
  moreover have "real (length xs) - 1 \<noteq> 0" using assms(1) by simp
  ultimately show ?thesis using assms(1) by (simp add: std_def Let_def)
qed

lemma std_single: "length xs < 2 \<Longrightarrow> std xs = NaN"
  by (simp add: std_def)

lemma normal_no_variance: "normal z (Fin 0) (Fin 0) n = replicate n (Fin 0)"
  by (simp add: normal_def map_replicate_const)

lemma normal_nan: "normal z mu NaN n = replicate n NaN"
  by (cases mu) (simp_all add: normal_def map_replicate_const)

lemma price_path_flat: "price_path (Fin v) (replicate n (Fin 0)) = replicate n (Fin v)"
  by (induction n) (simp_all add: Let_def)

lemma price_path_nan_start: "price_path NaN (replicate n NaN) = replicate n NaN"
  by (induction n) (simp_all add: Let_def)

lemma price_path_nan: "price_path (Fin v) (replicate n NaN) = replicate n NaN"
  by (cases n) (simp_all add: Let_def price_path_nan_start)

lemma fl_insort_same: "fl_insort (Fin v) (replicate k (Fin v)) = replicate (Suc k) (Fin v)"
  by (induction k) simp_all

lemma fl_sort_same: "fl_sort (replicate k (Fin v)) = replicate k (Fin v)"
  by (induction k) (simp_all add: fl_sort_def fl_insort_same)

lemma quantile_same:
  assumes "0 < k" "0 \<le> q" "q \<le> 1"
  shows "quantile q (replicate k (Fin v)) = Fin v"
proof -
  have "q * real (k - 1) \<le> real (k - 1)"
    using mult_left_le_one_le [of "real (k - 1)" q] assms(2,3) by simp
  then have "\<lfloor>q * real (k - 1)\<rfloor> \<le> int (k - 1)" by linarith
  then have lo: "nat \<lfloor>q * real (k - 1)\<rfloor> < k" using assms(1) by linarith
  have hi: "min (nat \<lfloor>q * real (k - 1)\<rfloor> + 1) (k - 1) < k" using assms(1) by simp
  show ?thesis
    using assms(1) lo hi
    by (simp add: quantile_def Let_def fl_sort_same fl_sub_def)
qed

lemma quantile_all_nan: "quantile q (replicate k NaN) = NaN"
  by (simp add: quantile_def Let_def fl_sort_def)

lemma quantiles_same: "0 < k \<Longrightarrow> quantiles (replicate k (Fin v)) = flat_row (Fin v)"
  by (simp add: quantiles_def flat_row_def quantile_same)

lemma quantiles_all_nan: "quantiles (replicate k NaN) = flat_row NaN"
  by (simp add: quantiles_def flat_row_def quantile_all_nan)

lemma rows_cong:
  assumes "\<And>j. j < m \<Longrightarrow> f j = r"
  shows "map (\<lambda>j. ((d, Suc j), f j)) [0..<m] = map (\<lambda>x. ((d, x), r)) [1..<m + 1]"
proof -
  have "map (\<lambda>j. ((d, Suc j), f j)) [0..<m] = map (\<lambda>j. ((d, Suc j), r)) [0..<m]"
    using assms by simp
  also have "\<dots> = map (\<lambda>x. ((d, x), r)) (map Suc [0..<m])"
    by (simp add: comp_def)
  also have "map Suc [0..<m] = [1..<m + 1]"
    by (simp add: map_Suc_upt del: upt_Suc)
  finally show ?thesis .
qed

text \<open>
  Claim C5, as the code has it.  For at least two historical returns that are all zero, a
  positive number of projection years and a positive number of paths, whatever the random
  draws and the starting value, the simulation returns the forecast in which all five
  quantiles of every future day are the starting value.
\<close>

theorem zero_returns_flat_forecast:
  assumes "2 \<le> length historical_returns" "\<forall>r\<in>set historical_returns. snd r = 0"
    and "0 < projection_years" "0 < num_simulations"
  shows "run_monte_carlo_simulation z historical_returns projection_years initial_value
           num_simulations =
     Inr (map (\<lambda>x. ((fst (last historical_returns), x), flat_row (Fin initial_value)))
            [1..<nat (projection_years * 252) + 1])"
proof -
  let ?xs = "map snd historical_returns"
  let ?m = "nat (projection_years * 252)"
  have ne: "historical_returns \<noteq> []" using assms(1) by auto
  have zero: "\<forall>x\<in>set ?xs. x = 0" using assms(2) by simp
  have mu: "mean ?xs = Fin 0" using mean_all_zero [of ?xs] ne zero by simp
  have sigma: "std ?xs = Fin 0" using std_all_zero [of ?xs] assms(1) zero by simp
  have row: "quantiles (map (\<lambda>i. price_path (Fin initial_value)
        (normal (z i) (mean ?xs) (std ?xs) ?m) ! j) [0..<nat num_simulations]) =
      flat_row (Fin initial_value)" if "j < ?m" for j
  proof -
    have "map (\<lambda>i. price_path (Fin initial_value)
        (normal (z i) (mean ?xs) (std ?xs) ?m) ! j) [0..<nat num_simulations] =
        replicate (nat num_simulations) (Fin initial_value)"
      using that by (simp add: mu sigma normal_no_variance price_path_flat map_replicate_const)
    then show ?thesis using assms(4) by (simp add: quantiles_same)
  qed
  have "run_monte_carlo_simulation z historical_returns projection_years initial_value
           num_simulations =
     Inr (map (\<lambda>j. ((fst (last historical_returns), Suc j),
                     quantiles (map (\<lambda>i. price_path (Fin initial_value)
                        (normal (z i) (mean ?xs) (std ?xs) ?m) ! j)
                        [0..<nat num_simulations])))
            [0..<?m])"
    using run_monte_carlo_simulation_rows [OF ne, of projection_years num_simulations z
        initial_value] assms(3,4) by simp
  also have "map (\<lambda>j. ((fst (last historical_returns), Suc j),
                     quantiles (map (\<lambda>i. price_path (Fin initial_value)
                        (normal (z i) (mean ?xs) (std ?xs) ?m) ! j)
                        [0..<nat num_simulations])))
            [0..<?m] =
      map (\<lambda>x. ((fst (last historical_returns), x), flat_row (Fin initial_value))) [1..<?m + 1]"
    by (rule rows_cong) (rule row)
  finally show ?thesis .
qed

theorem zero_returns_flat_forecast_witness:
  "2 \<le> length zero_history \<and> list_all (\<lambda>r. snd r = 0) zero_history \<and>
   run_monte_carlo_simulation sample_noise zero_history 1 10000 500 =
     Inr (map (\<lambda>x. ((dec31, x), flat_row (Fin 10000))) [1..<nat (1 * 252) + 1])"
proof -
  have a1: "2 \<le> length zero_history" by (simp add: zero_history_def)
  have a2: "\<forall>r\<in>set zero_history. snd r = 0" by (simp add: zero_history_def)
  have a2': "list_all (\<lambda>r. snd r = 0) zero_history" by (simp add: zero_history_def)
  have l: "fst (last zero_history) = dec31" by (simp add: zero_history_def)
  have "run_monte_carlo_simulation sample_noise zero_history 1 10000 500 =
     Inr (map (\<lambda>x. ((fst (last zero_history), x), flat_row (Fin 10000))) [1..<nat (1 * 252) + 1])"
    by (rule zero_returns_flat_forecast [OF a1 a2]) simp_all
  then have run: "run_monte_carlo_simulation sample_noise zero_history 1 10000 500 =
     Inr (map (\<lambda>x. ((dec31, x), flat_row (Fin 10000))) [1..<nat (1 * 252) + 1])"
    unfolding l .
  show ?thesis by (intro conjI a1 a2' run)
qed

lemma single_return_nan_forecast:
  assumes "length historical_returns = 1" "0 < projection_years" "0 < num_simulations"
  shows "run_monte_carlo_simulation z historical_returns projection_years initial_value
           num_simulations =
     Inr (map (\<lambda>x. ((fst (last historical_returns), x), flat_row NaN))
            [1..<nat (projection_years * 252) + 1])"
proof -
  let ?xs = "map snd historical_returns"
  let ?m = "nat (projection_years * 252)"
  have ne: "historical_returns \<noteq> []" using assms(1) by auto
  have sigma: "std ?xs = NaN" using std_single [of ?xs] assms(1) by simp
  have row: "quantiles (map (\<lambda>i. price_path (Fin initial_value)
        (normal (z i) (mean ?xs) (std ?xs) ?m) ! j) [0..<nat num_simulations]) =
      flat_row NaN" if "j < ?m" for j
  proof -
    have "map (\<lambda>i. price_path (Fin initial_value)
        (normal (z i) (mean ?xs) (std ?xs) ?m) ! j) [0..<nat num_simulations] =
        replicate (nat num_simulations) NaN"
      using that by (simp add: sigma normal_nan price_path_nan map_replicate_const)
    then show ?thesis by (simp add: quantiles_all_nan)
  qed
  have "run_monte_carlo_simulation z historical_returns projection_years initial_value
           num_simulations =
     Inr (map (\<lambda>j. ((fst (last historical_returns), Suc j),
                     quantiles (map (\<lambda>i. price_path (Fin initial_value)
                        (normal (z i) (mean ?xs) (std ?xs) ?m) ! j)
                        [0..<nat num_simulations])))
            [0..<?m])"
    using run_monte_carlo_simulation_rows [OF ne, of projection_years num_simulations z
        initial_value] assms(2,3) by simp
  also have "map (\<lambda>j. ((fst (last historical_returns), Suc j),
                     quantiles (map (\<lambda>i. price_path (Fin initial_value)
                        (normal (z i) (mean ?xs) (std ?xs) ?m) ! j)
                        [0..<nat num_simulations])))
            [0..<?m] =
      map (\<lambda>x. ((fst (last historical_returns), x), flat_row NaN)) [1..<?m + 1]"
    by (rule rows_cong) (rule row)
  finally show ?thesis .
qed

text \<open>
  Claim C5, as stated, fails for a single historical return of zero: the sample standard
  deviation of one value is not-a-number, so are all shocks and all simulated values, and
  every quantile of every future day is not-a-number instead of the starting value 10000.
\<close>

theorem single_zero_return_counterexample:
  "run_monte_carlo_simulation sample_noise [(dec31, 0)] 1 10000 500 =
     Inr (map (\<lambda>x. ((dec31, x), flat_row NaN)) [1..<nat (1 * 252) + 1]) \<and>
   flat_row NaN \<noteq> flat_row (Fin 10000)"
proof -
  have l: "fst (last [(dec31, 0 :: real)]) = dec31" by simp
  have "run_monte_carlo_simulation sample_noise [(dec31, 0)] 1 10000 500 =
     Inr (map (\<lambda>x. ((fst (last [(dec31, 0 :: real)]), x), flat_row NaN)) [1..<nat (1 * 252) + 1])"
    by (rule single_return_nan_forecast) simp_all
  then have run: "run_monte_carlo_simulation sample_noise [(dec31, 0)] 1 10000 500 =
     Inr (map (\<lambda>x. ((dec31, x), flat_row NaN)) [1..<nat (1 * 252) + 1])"
    unfolding l .
  have ne: "flat_row NaN \<noteq> flat_row (Fin 10000)" by (simp add: flat_row_def)
  from run ne show ?thesis by (rule conjI)
qed

section \<open>Properties of the risk report\<close>

lemma ordered_weights_total:
  "set cols \<subseteq> fst ` set weights \<Longrightarrow> \<exists>ws. ordered_weights weights cols = Inr ws"
proof (induction cols)
  case Nil
  show ?case by simp
next
  case (Cons c cols)
  then obtain ws where ws: "ordered_weights weights cols = Inr ws" by auto
  from Cons.prems have "c \<in> fst ` set weights" by simp
  then obtain w where "map_of weights c = Some w"
    by (metis map_of_eq_None_iff not_Some_eq)
  with ws show ?case by simp
qed

lemma log_ratio_rows_length: "length (log_ratio_rows pd) = length (prows pd)"
  by (cases "prows pd") (simp_all add: log_ratio_rows_def shift1_def)

lemma first_log_ratio_row_dropped:
  assumes "pcolumns pd \<noteq> []"
  shows "length (log_returns pd) \<le> length (prows pd) - 1"
proof (cases "prows pd")
  case Nil
  then show ?thesis by (simp add: log_returns_def dropna_def log_ratio_rows_def)
next
  case (Cons r rs)
  obtain c cs where cols: "pcolumns pd = c # cs" using assms by (cases "pcolumns pd") auto
  have "log_ratio_rows pd =
      (fst r, \<lambda>c. fl_log (fl_div (snd r c) NaN)) #
      map (\<lambda>((d, r), prev). (d, \<lambda>c. fl_log (fl_div (r c) (prev c))))
        (zip rs (map snd (butlast (r # rs))))"
    using Cons by (simp add: log_ratio_rows_def shift1_def case_prod_unfold)
  moreover have "fl_div x NaN = NaN" for x by (cases x) simp_all
  ultimately have eq: "log_returns pd =
      dropna (pcolumns pd) (map (\<lambda>((d, r), prev). (d, \<lambda>c. fl_log (fl_div (r c) (prev c))))
        (zip rs (map snd (butlast (r # rs)))))"
    using cols by (simp add: log_returns_def dropna_def)
  have "length (log_returns pd) \<le>
      length (map (\<lambda>((d, r), prev). (d, \<lambda>c. fl_log (fl_div (r c) (prev c))))
        (zip rs (map snd (butlast (r # rs)))))"
    unfolding eq dropna_def by (rule length_filter_le)
  also have "\<dots> \<le> length rs" by simp
  finally show ?thesis using Cons by simp
qed

text \<open>
  Claim C6, as the code has it.  With fewer than two price rows the report is
  \<^verbatim>\<open>(None, None)\<close>, before any weight is read.  When every column of the price table has
  a weight and fewer than two rows of log returns remain after the rows with a missing
  value are dropped, the report is \<^verbatim>\<open>(None, None)\<close> as well.
\<close>

theorem risk_report_none_on_short_data:
  "(length (prows price_data) < 2 \<longrightarrow>
      generate_risk_report report price_data weights = Inr None) \<and>
   (set (pcolumns price_data) \<subseteq> fst ` set weights \<and> length (log_returns price_data) < 2 \<longrightarrow>
      generate_risk_report report price_data weights = Inr None)"
proof (intro conjI impI)
  assume "length (prows price_data) < 2"
  then show "generate_risk_report report price_data weights = Inr None"
    by (simp add: generate_risk_report_def)
next
  assume a: "set (pcolumns price_data) \<subseteq> fst ` set weights \<and> length (log_returns price_data) < 2"
  then obtain ws where "ordered_weights weights (pcolumns price_data) = Inr ws"
    using ordered_weights_total by blast
  with a show "generate_risk_report report price_data weights = Inr None"
    by (simp add: generate_risk_report_def)
qed

theorem risk_report_none_on_short_data_witness:
  "length (prows one_row) < 2 \<and>
   generate_risk_report Pair one_row [(''AAPL'', 1)] = Inr None \<and>
   set (pcolumns gap_rows) \<subseteq> fst ` set [(''AAPL'', 1 :: real)] \<and>
   \<not> length (prows gap_rows) < 2 \<and>
   length (log_returns gap_rows) = 1 \<and>
   generate_risk_report Pair gap_rows [(''AAPL'', 1)] = Inr None"
proof -
  have s: "length (prows one_row) < 2" by (simp add: one_row_def)
  have c: "set (pcolumns gap_rows) \<subseteq> fst ` set [(''AAPL'', 1 :: real)]"
    by (simp add: gap_rows_def)
  have n: "\<not> length (prows gap_rows) < 2" by (simp add: gap_rows_def)
  have l: "length (log_returns gap_rows) = 1"
    by (simp add: gap_rows_def log_returns_def log_ratio_rows_def shift1_def dropna_def)
  have "generate_risk_report Pair one_row [(''AAPL'', 1)] = Inr None"
    using risk_report_none_on_short_data [of one_row Pair "[(''AAPL'', 1)]"] s by blast
  moreover have "generate_risk_report Pair gap_rows [(''AAPL'', 1)] = Inr None"
    using risk_report_none_on_short_data [of gap_rows Pair "[(''AAPL'', 1)]"] c l by simp
  ultimately show ?thesis using s c n l by blast
qed

text \<open>
  Claim C6, as stated, fails.  The weights are read, column by column, before the log
  returns are counted.  The price table \<^const>\<open>gap_rows\<close> has four rows of the one
  column \<open>AAPL\<close>, of which a single return observation remains; with the weights
  \<open>{GOOG: 1}\<close>, which have no entry for \<open>AAPL\<close>, the report raises \<open>KeyError\<close> instead of
  returning \<^verbatim>\<open>(None, None)\<close>.
\<close>

theorem risk_report_missing_weight_counterexample:
  "\<not> length (prows gap_rows) < 2 \<and>
   length (log_returns gap_rows) < 2 \<and>
   generate_risk_report Pair gap_rows [(''GOOG'', 1)] = Inl KeyError \<and>
   generate_risk_report Pair gap_rows [(''GOOG'', 1)] \<noteq> Inr None"
proof -
  have n: "\<not> length (prows gap_rows) < 2" by (simp add: gap_rows_def)
  have l: "length (log_returns gap_rows) < 2"
    by (simp add: gap_rows_def log_returns_def log_ratio_rows_def shift1_def dropna_def)
  have e: "generate_risk_report Pair gap_rows [(''GOOG'', 1)] = Inl KeyError"
    by (simp add: generate_risk_report_def gap_rows_def)
  from e have ne: "generate_risk_report Pair gap_rows [(''GOOG'', 1)] \<noteq> Inr None" by simp
  from n l e ne show ?thesis by blast
qed

end
